theory Spec2Isabelle
  imports Complex_Main "HOL-Library.Multiset" "HOL-Library.Sublist"
begin

section \<open>Data model (\<^verbatim>\<open>types\<close> and the state of \<^verbatim>\<open>useWhiteboard\<close>)\<close>

text \<open>
  The interfaces \<^verbatim>\<open>Point\<close>, \<^verbatim>\<open>Stroke\<close> and \<^verbatim>\<open>UserCursor\<close> of the types module. A
  JavaScript \<^verbatim>\<open>number\<close> that the hook only stores and copies (coordinates, widths) is a
  \<open>real\<close>; a clock reading (\<^verbatim>\<open>Date.now()\<close>, \<^verbatim>\<open>getTime()\<close>), an integral count of
  milliseconds, is an \<open>int\<close>. Field names carry a prefix where two interfaces share a
  name (\<^verbatim>\<open>id\<close>, \<^verbatim>\<open>x\<close>, \<^verbatim>\<open>y\<close>, \<^verbatim>\<open>name\<close>, \<^verbatim>\<open>color\<close>, \<^verbatim>\<open>width\<close>).
\<close>

record point =
  point_x :: real
  point_y :: real

record stroke =
  stroke_id :: string
  userId :: string
  color :: string
  width :: real
  points :: "point list"

record userCursor =
  cursor_id :: string
  cursor_x :: real
  cursor_y :: real
  cursor_name :: string

text \<open>The object held by \<^verbatim>\<open>currentUser\<close>: \<^verbatim>\<open>{ id, name, color, width }\<close>.\<close>

record user =
  uid :: string
  uname :: string
  ucolor :: string
  uwidth :: real

text \<open>
  One tracked presence record \<^verbatim>\<open>{ user_id, online_at, name? }\<close>. The field
  \<open>online_at\<close> holds the value of \<^verbatim>\<open>new Date(p.online_at).getTime()\<close>, the only way
  the hook reads the ISO string; every record is written by \<^verbatim>\<open>track\<close> with
  \<^verbatim>\<open>new Date().toISOString()\<close>, which \<^verbatim>\<open>Date\<close> parses back to an integral number of
  milliseconds. The optional \<^verbatim>\<open>name\<close> is \<open>None\<close> when the property is absent.
\<close>

record presence =
  user_id :: string
  online_at :: int
  name :: "string option"

text \<open>
  \<^verbatim>\<open>channel.presenceState()\<close>: an object from presence keys to arrays of records, in the
  order in which \<^verbatim>\<open>for (const key in state)\<close> enumerates its keys.
\<close>

type_synonym presenceState = "(string \<times> presence list) list"

text \<open>The four broadcast events, each with its payload.\<close>

datatype message =
  Cursor_move userCursor
  | Draw_line stroke
  | Req_state string
  | Sync_state "stroke list"

text \<open>
  The state of one mounted hook: the four \<^verbatim>\<open>useState\<close> cells, \<^verbatim>\<open>currentUser\<close>, and
  the four refs. \<open>channelRef\<close> records whether \<^verbatim>\<open>channelRef.current\<close> holds the channel
  (it is \<^verbatim>\<open>null\<close> until the mount effect assigns it), which is all that
  \<^verbatim>\<open>channelRef.current?.send\<close> depends on.
\<close>

record whiteboard =
  strokes :: "stroke list"
  currentStroke :: "stroke option"
  peers :: "userCursor list"
  activeUsers :: "string list"
  currentUser :: user
  channelRef :: bool
  lastCursorUpdate :: int
  strokesRef :: "stroke list"
  hasRequestedState :: bool

section \<open>Constants\<close>

definition COLORS_BLACK :: string where "COLORS_BLACK = ''#000000''"
definition COLORS_RED :: string where "COLORS_RED = ''#FF0000''"
definition COLORS_BLUE :: string where "COLORS_BLUE = ''#0000FF''"
definition COLORS_GREEN :: string where "COLORS_GREEN = ''#008000''"
definition COLORS_ERASER :: string where "COLORS_ERASER = ''#FFFFFF''"

definition WIDTHS_PEN :: real where "WIDTHS_PEN = 4"
definition WIDTHS_ERASER :: real where "WIDTHS_ERASER = 20"

text \<open>The colour with which \<^verbatim>\<open>Canvas\<close> fills the background before painting strokes.\<close>

definition canvasBackground :: string where "canvasBackground = ''#FFFFFF''"

section \<open>The hook\<close>

text \<open>
  Every operation takes the state and returns the new state with the list of messages it
  passed to \<^verbatim>\<open>send\<close>, in order. A functional update \<^verbatim>\<open>setX(prev => ...)\<close> is applied to
  the value left by the updates queued before it, so the cells are threaded through the
  operations one after the other. Values the hook obtains from its environment are
  arguments: the identifier returned by \<^verbatim>\<open>uuidv4()\<close>, the reading of \<^verbatim>\<open>Date.now()\<close>,
  the presence snapshot. The calls of \<^verbatim>\<open>channel.track\<close>, which publish the client's own
  presence record to the registry, are not broadcasts and do not appear in the messages.
\<close>

text \<open>
  The first render (\<open>uid0\<close> is the identifier drawn by \<^verbatim>\<open>uuidv4()\<close>), and the mount
  effect, which stores the channel in \<^verbatim>\<open>channelRef\<close>.
\<close>

definition initial :: "string \<Rightarrow> whiteboard" where
  "initial uid0 =
     \<lparr>strokes = [], currentStroke = None, peers = [], activeUsers = [],
      currentUser = \<lparr>uid = uid0, uname = [], ucolor = COLORS_BLACK, uwidth = WIDTHS_PEN\<rparr>,
      channelRef = False, lastCursorUpdate = 0, strokesRef = [],
      hasRequestedState = False\<rparr>"

definition mount :: "whiteboard \<Rightarrow> whiteboard" where
  "mount s = s\<lparr>channelRef := True\<rparr>"

text \<open>The effect \<^verbatim>\<open>strokesRef.current = strokes\<close>, run after a render that changed the log.\<close>

definition syncStrokesRef :: "whiteboard \<Rightarrow> whiteboard" where
  "syncStrokesRef s = s\<lparr>strokesRef := strokes s\<rparr>"

subsection \<open>Channel handlers\<close>

definition on_cursor_move :: "userCursor \<Rightarrow> whiteboard \<Rightarrow> whiteboard \<times> message list" where
  "on_cursor_move payload s =
     (s\<lparr>peers := filter (\<lambda>p. cursor_id p \<noteq> cursor_id payload) (peers s) @ [payload]\<rparr>, [])"

definition on_draw_line :: "stroke \<Rightarrow> whiteboard \<Rightarrow> whiteboard \<times> message list" where
  "on_draw_line payload s = (s\<lparr>strokes := strokes s @ [payload]\<rparr>, [])"

text \<open>The loop that flattens the presence state into \<^verbatim>\<open>allPresences\<close>.\<close>

definition allPresences :: "presenceState \<Rightarrow> presence list" where
  "allPresences state = concat (map snd state)"

text \<open>
  \<^verbatim>\<open>allPresences.sort((a, b) => timeA - timeB)\<close>: \<^verbatim>\<open>Array.prototype.sort\<close> is a stable
  sort, so with this comparator the result is the stable sort by the timestamp.
\<close>

definition sortByOnlineAt :: "presence list \<Rightarrow> presence list" where
  "sortByOnlineAt ps = sort_key online_at ps"

text \<open>
  The record the handler compares with the client's own identifier
  (\<^verbatim>\<open>allPresences.length > 0 && allPresences[0]\<close> after the sort): the elected host.
\<close>

definition electHost :: "presence list \<Rightarrow> string option" where
  "electHost ps = (case sortByOnlineAt ps of [] \<Rightarrow> None | p # _ \<Rightarrow> Some (user_id p))"

definition on_req_state :: "presenceState \<Rightarrow> string \<Rightarrow> whiteboard \<Rightarrow> whiteboard \<times> message list" where
  "on_req_state state requesterId s =
     (if requesterId = uid (currentUser s) then (s, [])
      else if electHost (allPresences state) = Some (uid (currentUser s))
        then (s, [Sync_state (strokesRef s)])
        else (s, []))"

definition on_sync_state :: "stroke list \<Rightarrow> whiteboard \<Rightarrow> whiteboard \<times> message list" where
  "on_sync_state payload_strokes s = (s\<lparr>strokes := payload_strokes\<rparr>, [])"

text \<open>\<^verbatim>\<open>p.name || 'Anonymous'\<close>: an absent or empty name is falsy.\<close>

definition displayName :: "presence \<Rightarrow> string" where
  "displayName p = (case name p of None \<Rightarrow> ''Anonymous'' | Some n \<Rightarrow> if n = [] then ''Anonymous'' else n)"

definition on_presence_sync :: "presenceState \<Rightarrow> whiteboard \<Rightarrow> whiteboard \<times> message list" where
  "on_presence_sync state s =
     (let ps = allPresences state;
          s1 = s\<lparr>activeUsers := map displayName ps\<rparr>
      in if \<not> hasRequestedState s \<and> length ps > 1
         then (s1\<lparr>hasRequestedState := True\<rparr>, [Req_state (uid (currentUser s))])
         else (s1, []))"

subsection \<open>Callbacks returned to the components\<close>

text \<open>\<open>newId\<close> is the identifier that \<^verbatim>\<open>uuidv4()\<close> returns for the new stroke.\<close>

definition startDrawing :: "string \<Rightarrow> real \<Rightarrow> real \<Rightarrow> whiteboard \<Rightarrow> whiteboard \<times> message list" where
  "startDrawing newId x y s =
     (s\<lparr>currentStroke :=
          Some \<lparr>stroke_id = newId, userId = uid (currentUser s),
                color = ucolor (currentUser s), width = uwidth (currentUser s),
                points = [\<lparr>point_x = x, point_y = y\<rparr>]\<rparr>\<rparr>, [])"

text \<open>
  The throttled cursor broadcast shared by \<^verbatim>\<open>draw\<close> and \<^verbatim>\<open>moveCursor\<close>; \<open>now\<close> is the
  reading of \<^verbatim>\<open>Date.now()\<close>. The optional call sends only when the channel is attached,
  while the timestamp is stored either way.
\<close>

definition cursorBroadcast :: "int \<Rightarrow> real \<Rightarrow> real \<Rightarrow> whiteboard \<Rightarrow> whiteboard \<times> message list" where
  "cursorBroadcast now x y s =
     (if now - lastCursorUpdate s > 50
      then (s\<lparr>lastCursorUpdate := now\<rparr>,
            if channelRef s
            then [Cursor_move \<lparr>cursor_id = uid (currentUser s), cursor_x = x, cursor_y = y,
                               cursor_name = uname (currentUser s)\<rparr>]
            else [])
      else (s, []))"

definition draw :: "int \<Rightarrow> real \<Rightarrow> real \<Rightarrow> whiteboard \<Rightarrow> whiteboard \<times> message list" where
  "draw now x y s =
     cursorBroadcast now x y
       (s\<lparr>currentStroke :=
            (case currentStroke s of
               None \<Rightarrow> None
             | Some prev \<Rightarrow> Some (prev\<lparr>points := points prev @ [\<lparr>point_x = x, point_y = y\<rparr>]\<rparr>))\<rparr>)"

definition moveCursor :: "int \<Rightarrow> real \<Rightarrow> real \<Rightarrow> whiteboard \<Rightarrow> whiteboard \<times> message list" where
  "moveCursor now x y s = cursorBroadcast now x y s"

text \<open>
  \<^verbatim>\<open>endDrawing\<close> hands \<^verbatim>\<open>setCurrentStroke\<close> an updater that, besides returning
  \<^verbatim>\<open>null\<close>, queues the append to the log and sends the stroke. \<open>prev\<close> is the value
  of the slot with which React calls it.
\<close>

definition endDrawing_updater :: "stroke option \<Rightarrow> whiteboard \<Rightarrow> whiteboard \<times> message list" where
  "endDrawing_updater prev s =
     (case prev of
        None \<Rightarrow> (s\<lparr>currentStroke := None\<rparr>, [])
      | Some p \<Rightarrow>
          (s\<lparr>strokes := strokes s @ [p], currentStroke := None\<rparr>,
           if channelRef s then [Draw_line p] else []))"

text \<open>
  React calls the updater when it processes the queued update, and may call it again with
  the same value of the slot: it replays updaters under \<^verbatim>\<open>StrictMode\<close> in a development
  build. It keeps the state computed by one call, while the message sent by every call has
  gone out. \<open>replays\<close> is the number of additional calls, 0 when the updater runs once.
\<close>

definition endDrawing :: "nat \<Rightarrow> whiteboard \<Rightarrow> whiteboard \<times> message list" where
  "endDrawing replays s =
     (case endDrawing_updater (currentStroke s) s of
        (s1, sent) \<Rightarrow> (s1, sent @ concat (replicate replays sent)))"

definition setTool :: "string \<Rightarrow> real \<Rightarrow> whiteboard \<Rightarrow> whiteboard \<times> message list" where
  "setTool c w s = (s\<lparr>currentUser := (currentUser s)\<lparr>ucolor := c, uwidth := w\<rparr>\<rparr>, [])"

definition setDisplayName :: "string \<Rightarrow> whiteboard \<Rightarrow> whiteboard \<times> message list" where
  "setDisplayName n s = (s\<lparr>currentUser := (currentUser s)\<lparr>uname := n\<rparr>\<rparr>, [])"

subsection \<open>The toolbar\<close>

record tool =
  tool_color :: string
  tool_width :: real
  tool_label :: string

definition tools :: "tool list" where
  "tools =
     [\<lparr>tool_color = COLORS_BLACK, tool_width = WIDTHS_PEN, tool_label = ''Black''\<rparr>,
      \<lparr>tool_color = COLORS_RED, tool_width = WIDTHS_PEN, tool_label = ''Red''\<rparr>,
      \<lparr>tool_color = COLORS_BLUE, tool_width = WIDTHS_PEN, tool_label = ''Blue''\<rparr>,
      \<lparr>tool_color = COLORS_GREEN, tool_width = WIDTHS_PEN, tool_label = ''Green''\<rparr>,
      \<lparr>tool_color = COLORS_ERASER, tool_width = WIDTHS_ERASER, tool_label = ''Eraser''\<rparr>]"

text \<open>The button's \<^verbatim>\<open>onClick\<close>: \<^verbatim>\<open>setTool(tool.color, tool.width)\<close>.\<close>

definition onClick :: "tool \<Rightarrow> whiteboard \<Rightarrow> whiteboard \<times> message list" where
  "onClick t s = setTool (tool_color t) (tool_width t) s"

subsection \<open>Sessions\<close>

text \<open>
  Everything that can happen to a mounted hook: a broadcast or presence notification
  arrives, a component calls one of the callbacks, or React runs the effect that mirrors
  the log into \<^verbatim>\<open>strokesRef\<close>. The hook also returns the raw setter \<^verbatim>\<open>setStrokes\<close>;
  no component calls it, and it is not an event here.
\<close>

datatype event =
  Recv_cursor_move userCursor
  | Recv_draw_line stroke
  | Recv_req_state presenceState string
  | Recv_sync_state "stroke list"
  | Presence_sync presenceState
  | StartDrawing string real real
  | Draw int real real
  | MoveCursor int real real
  | EndDrawing nat
  | SetTool string real
  | SetDisplayName string
  | StrokesEffect

fun step :: "event \<Rightarrow> whiteboard \<Rightarrow> whiteboard \<times> message list" where
  "step (Recv_cursor_move c) s = on_cursor_move c s"
| "step (Recv_draw_line st) s = on_draw_line st s"
| "step (Recv_req_state state r) s = on_req_state state r s"
| "step (Recv_sync_state sts) s = on_sync_state sts s"
| "step (Presence_sync state) s = on_presence_sync state s"
| "step (StartDrawing newId x y) s = startDrawing newId x y s"
| "step (Draw now x y) s = draw now x y s"
| "step (MoveCursor now x y) s = moveCursor now x y s"
| "step (EndDrawing replays) s = endDrawing replays s"
| "step (SetTool c w) s = setTool c w s"
| "step (SetDisplayName n) s = setDisplayName n s"
| "step StrokesEffect s = (syncStrokesRef s, [])"

text \<open>Running a list of events: the final state and every message sent, in order.\<close>

fun run :: "event list \<Rightarrow> whiteboard \<Rightarrow> whiteboard \<times> message list" where
  "run [] s = (s, [])"
| "run (e # es) s =
     (case step e s of (s1, out1) \<Rightarrow> (case run es s1 of (s2, out2) \<Rightarrow> (s2, out1 @ out2)))"

subsection \<open>Observations on events and messages\<close>

fun is_req_state :: "message \<Rightarrow> bool" where
  "is_req_state (Req_state _) = True"
| "is_req_state _ = False"

fun is_cursor_move :: "message \<Rightarrow> bool" where
  "is_cursor_move (Cursor_move _) = True"
| "is_cursor_move _ = False"

text \<open>The number of cursor-move messages in a list of sent messages.\<close>

definition cursorMessages :: "message list \<Rightarrow> nat" where
  "cursorMessages out = length (filter is_cursor_move out)"

text \<open>
  A pointer move reaches the hook as a call of \<^verbatim>\<open>draw\<close> or of \<^verbatim>\<open>moveCursor\<close>; the
  clock reading of such an event.
\<close>

fun pointerMoveAt :: "event \<Rightarrow> int option" where
  "pointerMoveAt (Draw now _ _) = Some now"
| "pointerMoveAt (MoveCursor now _ _) = Some now"
| "pointerMoveAt _ = None"

text \<open>
  A presence notification whose snapshot holds more than one record: the test
  \<^verbatim>\<open>allPresences.length > 1\<close> of the presence handler.
\<close>

definition asks :: "event \<Rightarrow> bool" where
  "asks e = (case e of Presence_sync state \<Rightarrow> 1 < length (allPresences state) | _ \<Rightarrow> False)"

text \<open>The reception of a sync-state message, the one event that calls the log's replacement.\<close>

fun is_sync_state_event :: "event \<Rightarrow> bool" where
  "is_sync_state_event (Recv_sync_state _) = True"
| "is_sync_state_event _ = False"

subsection \<open>Concrete sessions\<close>

text \<open>
  The stroke S1 and the three clients A, B, C that joined at t = 1, 2, 3; client A's board
  after S1 was committed and rendered.
\<close>

definition strokeS1 :: stroke where
  "strokeS1 =
     \<lparr>stroke_id = ''s1'', userId = ''A'', color = COLORS_BLACK, width = WIDTHS_PEN,
      points = [\<lparr>point_x = 0, point_y = 0\<rparr>, \<lparr>point_x = 10, point_y = 10\<rparr>]\<rparr>"

definition presenceA :: presence where
  "presenceA = \<lparr>user_id = ''A'', online_at = 1, name = Some ''Ann''\<rparr>"

definition presenceB :: presence where
  "presenceB = \<lparr>user_id = ''B'', online_at = 2, name = Some ''Bob''\<rparr>"

definition presenceC :: presence where
  "presenceC = \<lparr>user_id = ''C'', online_at = 3, name = None\<rparr>"

definition threeJoined :: presenceState where
  "threeJoined = [(''kC'', [presenceC]), (''kA'', [presenceA]), (''kB'', [presenceB])]"

definition boardA :: whiteboard where
  "boardA = (mount (initial ''A''))\<lparr>strokes := [strokeS1], strokesRef := [strokeS1]\<rparr>"

text \<open>Two clients whose records carry the same timestamp.\<close>

definition tiedA :: presence where
  "tiedA = \<lparr>user_id = ''A'', online_at = 5, name = None\<rparr>"

definition tiedB :: presence where
  "tiedB = \<lparr>user_id = ''B'', online_at = 5, name = None\<rparr>"

text \<open>Pointer moves every 10 ms from \<open>t0\<close> to \<open>t0 + 200\<close>.\<close>

definition movesEvery10ms :: "int \<Rightarrow> event list" where
  "movesEvery10ms t0 = map (\<lambda>k. MoveCursor (t0 + 10 * int k) (real k) 0) [0..<21]"

section \<open>Auxiliary facts\<close>

lemma run_append:
  "run (es @ fs) s =
     (case run es s of (s1, o1) \<Rightarrow> (case run fs s1 of (s2, o2) \<Rightarrow> (s2, o1 @ o2)))"
  by (induction es arbitrary: s) (auto split: prod.splits)

lemmas handler_defs =
  on_cursor_move_def on_draw_line_def on_req_state_def on_sync_state_def on_presence_sync_def
  Let_def startDrawing_def draw_def moveCursor_def cursorBroadcast_def endDrawing_def
  endDrawing_updater_def
  setTool_def setDisplayName_def syncStrokesRef_def

text \<open>No event changes the client's identifier or detaches the channel.\<close>

lemma step_uid: "uid (currentUser (fst (step e s))) = uid (currentUser s)"
  by (cases e) (auto simp: handler_defs split: if_splits option.splits)

lemma step_channelRef: "channelRef (fst (step e s)) = channelRef s"
  by (cases e) (auto simp: handler_defs split: if_splits option.splits)

lemma run_channelRef: "channelRef (fst (run es s)) = channelRef s"
proof (induction es arbitrary: s)
  case Nil
  show ?case by simp
next
  case (Cons e es)
  obtain s1 o1 where st: "step e s = (s1, o1)"
    by (cases "step e s")
  have "channelRef s1 = channelRef s"
    using step_channelRef[of e s] st by simp
  moreover have "channelRef (fst (run es s1)) = channelRef s1"
    by (rule Cons.IH)
  ultimately show ?case
    using st by (auto split: prod.splits)
qed

subsection \<open>The presence sort\<close>

lemma sortByOnlineAt_sorted: "sorted (map online_at (sortByOnlineAt ps))"
  by (simp add: sortByOnlineAt_def)

lemma sortByOnlineAt_mset: "mset (sortByOnlineAt ps) = mset ps"
  by (simp add: sortByOnlineAt_def)

text \<open>The first record after the sort is a record of the snapshot with a minimal timestamp.\<close>

lemma sortByOnlineAt_head:
  assumes "ps \<noteq> []"
  shows "\<exists>p rest. sortByOnlineAt ps = p # rest \<and> p \<in> set ps
           \<and> (\<forall>r\<in>set ps. online_at p \<le> online_at r)"
proof -
  have "length (sortByOnlineAt ps) = length ps"
    by (simp add: sortByOnlineAt_def)
  with assms obtain p rest where pr: "sortByOnlineAt ps = p # rest"
    by (cases "sortByOnlineAt ps") auto
  have same: "set (sortByOnlineAt ps) = set ps"
    by (simp add: sortByOnlineAt_def)
  have "sorted (map online_at (p # rest))"
    using sortByOnlineAt_sorted[of ps] pr by simp
  then have "\<forall>r\<in>set (p # rest). online_at p \<le> online_at r"
    by auto
  with pr same show ?thesis
    by (metis list.set_intros(1))
qed

subsection \<open>The request flag\<close>

lemma step_requested:
  "hasRequestedState s \<Longrightarrow>
     hasRequestedState (fst (step e s)) \<and> filter is_req_state (snd (step e s)) = []"
  by (cases e) (auto simp: handler_defs split: if_splits option.splits)

lemma run_requested:
  "hasRequestedState s \<Longrightarrow>
     hasRequestedState (fst (run es s)) \<and> filter is_req_state (snd (run es s)) = []"
proof (induction es arbitrary: s)
  case Nil
  then show ?case by simp
next
  case (Cons e es)
  obtain s1 o1 where st: "step e s = (s1, o1)"
    by (cases "step e s")
  have a: "hasRequestedState s1 \<and> filter is_req_state o1 = []"
    using step_requested[OF Cons.prems, of e] st by simp
  then have "hasRequestedState (fst (run es s1)) \<and> filter is_req_state (snd (run es s1)) = []"
    using Cons.IH by blast
  with a st show ?case
    by (auto split: prod.splits)
qed

lemma step_asks:
  "\<not> hasRequestedState s \<Longrightarrow> asks e \<Longrightarrow>
     hasRequestedState (fst (step e s))
     \<and> filter is_req_state (snd (step e s)) = [Req_state (uid (currentUser s))]"
  by (cases e) (auto simp: asks_def on_presence_sync_def Let_def)

lemma step_not_asks:
  "\<not> hasRequestedState s \<Longrightarrow> \<not> asks e \<Longrightarrow>
     \<not> hasRequestedState (fst (step e s)) \<and> filter is_req_state (snd (step e s)) = []"
  by (cases e) (auto simp: asks_def handler_defs split: if_splits option.splits)

lemma run_first_ask:
  "\<not> hasRequestedState s \<Longrightarrow> \<exists>e\<in>set es. asks e \<Longrightarrow>
     hasRequestedState (fst (run es s))
     \<and> filter is_req_state (snd (run es s)) = [Req_state (uid (currentUser s))]"
proof (induction es arbitrary: s)
  case Nil
  then show ?case by simp
next
  case (Cons e es)
  obtain s1 o1 where st: "step e s = (s1, o1)"
    by (cases "step e s")
  show ?case
  proof (cases "asks e")
    case True
    have a: "hasRequestedState s1 \<and> filter is_req_state o1 = [Req_state (uid (currentUser s))]"
      using step_asks[OF Cons.prems(1) True] st by simp
    then have "hasRequestedState (fst (run es s1)) \<and> filter is_req_state (snd (run es s1)) = []"
      using run_requested by blast
    with a st show ?thesis
      by (auto split: prod.splits)
  next
    case False
    have a: "\<not> hasRequestedState s1 \<and> filter is_req_state o1 = []"
      using step_not_asks[OF Cons.prems(1) False] st by simp
    have u: "uid (currentUser s1) = uid (currentUser s)"
      using step_uid[of e s] st by simp
    from False Cons.prems(2) have "\<exists>e\<in>set es. asks e"
      by auto
    with a Cons.IH[of s1]
    have "hasRequestedState (fst (run es s1))
          \<and> filter is_req_state (snd (run es s1)) = [Req_state (uid (currentUser s1))]"
      by blast
    with a u st show ?thesis
      by (auto split: prod.splits)
  qed
qed

subsection \<open>The stroke log\<close>

lemma step_prefix:
  "\<not> is_sync_state_event e \<Longrightarrow> prefix (strokes s) (strokes (fst (step e s)))"
  by (cases e) (auto simp: handler_defs split: if_splits option.splits)

lemma run_prefix:
  "\<forall>e\<in>set es. \<not> is_sync_state_event e \<Longrightarrow> prefix (strokes s) (strokes (fst (run es s)))"
proof (induction es arbitrary: s)
  case Nil
  then show ?case by simp
next
  case (Cons e es)
  obtain s1 o1 where st: "step e s = (s1, o1)"
    by (cases "step e s")
  have "prefix (strokes s) (strokes s1)"
    using step_prefix[of e s] Cons.prems st by simp
  moreover have "prefix (strokes s1) (strokes (fst (run es s1)))"
    using Cons by simp
  ultimately show ?case
    using st by (auto split: prod.splits)
qed

lemma draw_line_origin:
  "Draw_line m \<in> set (snd (step e s)) \<Longrightarrow>
     (\<exists>replays. e = EndDrawing replays) \<and> currentStroke s = Some m"
  by (cases e) (auto simp: handler_defs split: if_splits option.splits)

text \<open>Pointer moves extend the stroke in progress and leave its other fields and the log alone.\<close>

lemma moves_keep_stroke:
  "\<forall>e\<in>set es. pointerMoveAt e \<noteq> None \<Longrightarrow> currentStroke s = Some st \<Longrightarrow>
     \<exists>st'. currentStroke (fst (run es s)) = Some st' \<and> color st' = color st
        \<and> width st' = width st \<and> strokes (fst (run es s)) = strokes s"
proof (induction es arbitrary: s st)
  case Nil
  then show ?case by simp
next
  case (Cons e es)
  from Cons.prems(1) have pm: "pointerMoveAt e \<noteq> None"
    by simp
  have "\<exists>st1. currentStroke (fst (step e s)) = Some st1 \<and> color st1 = color st
          \<and> width st1 = width st \<and> strokes (fst (step e s)) = strokes s"
    using pm Cons.prems(2) by (cases e) (auto simp: draw_def moveCursor_def cursorBroadcast_def)
  then obtain st1 where s1: "currentStroke (fst (step e s)) = Some st1" "color st1 = color st"
      "width st1 = width st" "strokes (fst (step e s)) = strokes s"
    by blast
  have "\<forall>e\<in>set es. pointerMoveAt e \<noteq> None"
    using Cons.prems(1) by simp
  from Cons.IH[OF this s1(1)] s1 show ?case
    by (auto split: prod.splits)
qed

subsection \<open>The cursor throttle\<close>

lemma cursorMessages_append: "cursorMessages (a @ b) = cursorMessages a + cursorMessages b"
  by (simp add: cursorMessages_def)

lemma step_pointerMove_time:
  "pointerMoveAt e = Some t \<Longrightarrow>
     lastCursorUpdate (fst (step e s)) = (if t - lastCursorUpdate s > 50 then t else lastCursorUpdate s)"
  by (cases e) (simp_all add: draw_def moveCursor_def cursorBroadcast_def)

lemma step_pointerMove_sent:
  "pointerMoveAt e = Some t \<Longrightarrow>
     cursorMessages (snd (step e s)) \<le> (if t - lastCursorUpdate s > 50 then 1 else 0)"
  by (cases e) (simp_all add: draw_def moveCursor_def cursorBroadcast_def cursorMessages_def)

lemma run_cons_sent:
  "cursorMessages (snd (run (e # es) s)) =
     cursorMessages (snd (step e s)) + cursorMessages (snd (run es (fst (step e s))))"
  by (simp add: cursorMessages_append split: prod.splits)

text \<open>
  Every message costs more than 50 ms of the time left until \<open>b\<close>: a send at \<open>t\<close> needs
  \<open>t \<ge> last + 51\<close> and moves \<open>last\<close> to \<open>t\<close>.
\<close>

lemma run_budget:
  "\<forall>e\<in>set es. \<exists>t. pointerMoveAt e = Some t \<and> t \<le> b \<Longrightarrow>
     51 * int (cursorMessages (snd (run es s))) \<le> max 0 (b - lastCursorUpdate s)"
proof (induction es arbitrary: s)
  case Nil
  then show ?case by (simp add: cursorMessages_def)
next
  case (Cons e es)
  from Cons.prems obtain t where t: "pointerMoveAt e = Some t" "t \<le> b"
    by auto
  have ih: "51 * int (cursorMessages (snd (run es (fst (step e s)))))
              \<le> max 0 (b - lastCursorUpdate (fst (step e s)))"
    using Cons by simp
  note tm = step_pointerMove_time[OF t(1), of s]
  note sn = step_pointerMove_sent[OF t(1), of s]
  show ?case
  proof (cases "t - lastCursorUpdate s > 50")
    case True
    then show ?thesis
      using tm sn ih t(2) unfolding run_cons_sent by simp
  next
    case False
    then show ?thesis
      using tm sn ih unfolding run_cons_sent by simp
  qed
qed

lemma run_window:
  "\<forall>e\<in>set es. \<exists>t. pointerMoveAt e = Some t \<and> t0 \<le> t \<and> t \<le> t0 + 200 \<Longrightarrow>
     cursorMessages (snd (run es s)) \<le> 4"
proof (induction es arbitrary: s)
  case Nil
  then show ?case by (simp add: cursorMessages_def)
next
  case (Cons e es)
  from Cons.prems obtain t where t: "pointerMoveAt e = Some t" "t0 \<le> t" "t \<le> t0 + 200"
    by auto
  note tm = step_pointerMove_time[OF t(1), of s]
  note sn = step_pointerMove_sent[OF t(1), of s]
  show ?case
  proof (cases "t - lastCursorUpdate s > 50")
    case True
    have "\<forall>e\<in>set es. \<exists>t. pointerMoveAt e = Some t \<and> t \<le> t0 + 200"
      using Cons.prems by auto
    from run_budget[OF this, of "fst (step e s)"] True tm t
    have "51 * int (cursorMessages (snd (run es (fst (step e s))))) \<le> 200"
      by simp
    then have "cursorMessages (snd (run es (fst (step e s)))) \<le> 3"
      by linarith
    then show ?thesis
      using sn True unfolding run_cons_sent by simp
  next
    case False
    have "cursorMessages (snd (run es (fst (step e s)))) \<le> 4"
      using Cons by simp
    then show ?thesis
      using sn False unfolding run_cons_sent by simp
  qed
qed

lemma movesEvery10ms_window:
  "\<forall>e\<in>set (movesEvery10ms t0). \<exists>t. pointerMoveAt e = Some t \<and> t0 \<le> t \<and> t \<le> t0 + 200"
  by (auto simp: movesEvery10ms_def)

section \<open>Catch-up protocol\<close>

text \<open>
  The reply to a req-state message: one sync-state message exactly when the requester is
  not the client itself and the presence snapshot, sorted ascending by timestamp, has the
  client's own record first, and nothing otherwise; the state is never changed. The
  payload is \<^verbatim>\<open>strokesRef.current\<close>, which is the log right after the mirroring effect.
\<close>

lemma on_req_state_reply:
  "fst (on_req_state state requesterId s) = s
   \<and> snd (on_req_state state requesterId s) =
       (if requesterId \<noteq> uid (currentUser s)
           \<and> (\<exists>p rest. sortByOnlineAt (allPresences state) = p # rest
                  \<and> user_id p = uid (currentUser s))
        then [Sync_state (strokesRef s)] else [])"
  by (auto simp: on_req_state_def electHost_def split: list.splits)

lemma on_req_state_after_effect:
  "snd (on_req_state state requesterId (fst (step StrokesEffect s))) =
       (if requesterId \<noteq> uid (currentUser s)
           \<and> (\<exists>p rest. sortByOnlineAt (allPresences state) = p # rest
                  \<and> user_id p = uid (currentUser s))
        then [Sync_state (strokes s)] else [])"
  by (auto simp: on_req_state_def electHost_def syncStrokesRef_def split: list.splits)

text \<open>
  C1. The claim has the host answer a req-state message with its full local stroke log.
  The handler sends \<^verbatim>\<open>strokesRef.current\<close>, which the effect brings up to date only
  after the next render. With A, B, C joined at t = 1, 2, 3: host A receives the stroke S1
  and then C's request before the effect has run; its log is \<open>[S1]\<close>, yet it answers with
  the empty log. When the effect runs between the two messages it answers with \<open>[S1]\<close>.
\<close>

theorem req_state_stale_reply:
  "strokes (fst (run [Recv_draw_line strokeS1] (mount (initial ''A'')))) = [strokeS1]
   \<and> snd (run [Recv_draw_line strokeS1, Recv_req_state threeJoined ''C''] (mount (initial ''A'')))
       = [Sync_state []]
   \<and> snd (run [Recv_draw_line strokeS1, StrokesEffect, Recv_req_state threeJoined ''C'']
            (mount (initial ''A'')))
       = [Sync_state [strokeS1]]"
  by (simp add: on_draw_line_def on_req_state_def syncStrokesRef_def electHost_def
      sortByOnlineAt_def allPresences_def threeJoined_def presenceA_def presenceB_def
      presenceC_def mount_def initial_def)

text \<open>
  C2. In a session that starts with the request flag unset, if some presence notification
  shows more than one record (the client's own and at least one more), then over the whole
  session exactly one req-state message is sent, naming the client as requester; the flag
  is set from then on, and no later event of any kind sends another req-state.
\<close>

theorem single_req_state:
  assumes "\<not> hasRequestedState s"
    and "Presence_sync state \<in> set es"
    and "1 < length (allPresences state)"
  shows "filter is_req_state (snd (run es s)) = [Req_state (uid (currentUser s))]
     \<and> length (filter is_req_state (snd (run es s))) = 1
     \<and> hasRequestedState (fst (run es s))
     \<and> filter is_req_state (snd (run later (fst (run es s)))) = []"
proof -
  have "asks (Presence_sync state)"
    using assms(3) by (simp add: asks_def)
  with assms(2) have "\<exists>e\<in>set es. asks e"
    by blast
  from run_first_ask[OF assms(1) this]
  have first: "hasRequestedState (fst (run es s))"
      "filter is_req_state (snd (run es s)) = [Req_state (uid (currentUser s))]"
    by simp_all
  from run_requested[OF first(1), of later] first show ?thesis
    by simp
qed

text \<open>
  Client B sees itself alone, then A and itself, then all three: one request in total, and
  none when the three-member notification is repeated.
\<close>

theorem single_req_state_witness:
  "\<not> hasRequestedState (mount (initial ''B''))
   \<and> 1 < length (allPresences threeJoined)
   \<and> filter is_req_state
        (snd (run [Presence_sync [(''kB'', [presenceB])],
                   Presence_sync [(''kA'', [presenceA]), (''kB'', [presenceB])],
                   Presence_sync threeJoined] (mount (initial ''B''))))
       = [Req_state ''B'']
   \<and> filter is_req_state
        (snd (run [Presence_sync threeJoined]
           (fst (run [Presence_sync [(''kB'', [presenceB])],
                      Presence_sync [(''kA'', [presenceA]), (''kB'', [presenceB])],
                      Presence_sync threeJoined] (mount (initial ''B'')))))) = []"
  using single_req_state[of "mount (initial ''B'')" threeJoined
      "[Presence_sync [(''kB'', [presenceB])],
        Presence_sync [(''kA'', [presenceA]), (''kB'', [presenceB])],
        Presence_sync threeJoined]" "[Presence_sync threeJoined]"]
  by (simp add: mount_def initial_def allPresences_def threeJoined_def)

text \<open>
  C3. Handling a sync-state message sets the stroke log to exactly the sequence carried in
  the payload, whatever the log held before and whether or not this client ever sent a
  req-state request (for either value of the request flag); nothing is sent and no other
  part of the state changes.
\<close>

theorem sync_state_replaces_log:
  "strokes (fst (on_sync_state payload_strokes s)) = payload_strokes
   \<and> snd (on_sync_state payload_strokes s) = []
   \<and> fst (on_sync_state payload_strokes s) = s\<lparr>strokes := payload_strokes\<rparr>
   \<and> strokes (fst (on_sync_state payload_strokes (s\<lparr>hasRequestedState := b\<rparr>))) = payload_strokes"
  by (simp add: on_sync_state_def)

text \<open>
  The race of the specification: B has drawn a stroke of its own when \<open>[S1]\<close> arrives; its
  log becomes \<open>[S1]\<close>.
\<close>

theorem sync_state_replaces_log_witness:
  "strokes (fst (on_sync_state [strokeS1]
      ((mount (initial ''B''))\<lparr>strokes := [strokeS1\<lparr>stroke_id := ''s2'', userId := ''B''\<rparr>]\<rparr>)))
   = [strokeS1]"
  using sync_state_replaces_log[of "[strokeS1]"
      "(mount (initial ''B''))\<lparr>strokes := [strokeS1\<lparr>stroke_id := ''s2'', userId := ''B''\<rparr>]\<rparr>"]
  by simp

section \<open>Host election\<close>

text \<open>
  C4, as stated, fails: with two records of equal timestamp the stable sort keeps the
  input order, so the two orders of the same presence set elect different hosts.
\<close>

theorem electHost_tie_counterexample:
  "mset [tiedB, tiedA] = mset [tiedA, tiedB]
   \<and> electHost [tiedA, tiedB] = Some ''A''
   \<and> electHost [tiedB, tiedA] = Some ''B''"
  by (simp add: electHost_def sortByOnlineAt_def tiedA_def tiedB_def)

text \<open>
  C4, amended. For a non-empty presence set in which all records of minimal timestamp carry
  the same user identifier, every permutation of the input elects the same host, and the
  host is the user of a record with the minimal timestamp.
\<close>

theorem electHost_permutation:
  assumes "mset ys = mset xs" and "xs \<noteq> []"
    and "\<forall>p\<in>set xs. \<forall>q\<in>set xs.
           (\<forall>r\<in>set xs. online_at p \<le> online_at r) \<and> (\<forall>r\<in>set xs. online_at q \<le> online_at r)
             \<longrightarrow> user_id p = user_id q"
  shows "electHost ys = electHost xs
     \<and> (\<exists>p\<in>set xs. electHost xs = Some (user_id p) \<and> (\<forall>r\<in>set xs. online_at p \<le> online_at r))"
proof -
  have sy: "set ys = set xs"
    using assms(1) by (metis set_mset_mset)
  then have yne: "ys \<noteq> []"
    using assms(2) by auto
  obtain p rest where p: "sortByOnlineAt xs = p # rest" "p \<in> set xs"
      "\<forall>r\<in>set xs. online_at p \<le> online_at r"
    using sortByOnlineAt_head[OF assms(2)] by blast
  obtain q rest' where q: "sortByOnlineAt ys = q # rest'" "q \<in> set ys"
      "\<forall>r\<in>set ys. online_at q \<le> online_at r"
    using sortByOnlineAt_head[OF yne] by blast
  have "user_id p = user_id q"
    using assms(3) p q sy by blast
  then have "electHost ys = electHost xs"
    using p(1) q(1) by (simp add: electHost_def)
  moreover have "electHost xs = Some (user_id p)"
    using p(1) by (simp add: electHost_def)
  ultimately show ?thesis
    using p(2,3) by blast
qed

theorem electHost_permutation_witness:
  "electHost [presenceB, presenceA, presenceC] = electHost [presenceC, presenceA, presenceB]
   \<and> electHost [presenceC, presenceA, presenceB] = Some ''A''"
proof -
  have m: "mset [presenceB, presenceA, presenceC] = mset [presenceC, presenceA, presenceB]"
    by simp
  have ne: "[presenceC, presenceA, presenceB] \<noteq> []"
    by simp
  have u: "\<forall>p\<in>set [presenceC, presenceA, presenceB]. \<forall>q\<in>set [presenceC, presenceA, presenceB].
           (\<forall>r\<in>set [presenceC, presenceA, presenceB]. online_at p \<le> online_at r)
           \<and> (\<forall>r\<in>set [presenceC, presenceA, presenceB]. online_at q \<le> online_at r)
             \<longrightarrow> user_id p = user_id q"
    by (simp add: presenceA_def presenceB_def presenceC_def)
  from electHost_permutation[OF m ne u] show ?thesis
    by (simp add: electHost_def sortByOnlineAt_def presenceA_def presenceB_def presenceC_def)
qed

section \<open>Replication log\<close>

text \<open>
  C5. Over every sequence of events that contains no sync-state reception (in particular
  every sequence of local stroke commits and draw-line receptions), the log before is a
  prefix of the log after: its length does not decrease and every stroke it held keeps its
  position. The sync-state handler is the only event that can shrink or rewrite the log.
\<close>

theorem log_append_only:
  assumes "\<forall>e\<in>set es. \<not> is_sync_state_event e"
  shows "prefix (strokes s) (strokes (fst (run es s)))
     \<and> length (strokes s) \<le> length (strokes (fst (run es s)))
     \<and> (\<forall>i<length (strokes s). strokes (fst (run es s)) ! i = strokes s ! i)"
proof -
  have pre: "prefix (strokes s) (strokes (fst (run es s)))"
    using assms by (rule run_prefix)
  then obtain zs where zs: "strokes (fst (run es s)) = strokes s @ zs"
    by (auto simp: prefix_def)
  then have "\<forall>i<length (strokes s). strokes (fst (run es s)) ! i = strokes s ! i"
    by (simp add: nth_append)
  with pre zs show ?thesis
    by simp
qed

text \<open>
  From A's board \<open>[S1]\<close>: a local stroke is drawn and committed, then a remote stroke
  arrives; S1 is still the first of three strokes.
\<close>

theorem log_append_only_witness:
  "length (strokes boardA) \<le>
     length (strokes (fst (run [StartDrawing ''s2'' 1 2, Draw 100 3 4, EndDrawing 0,
                                Recv_draw_line (strokeS1\<lparr>stroke_id := ''s3''\<rparr>)] boardA)))
   \<and> strokes (fst (run [StartDrawing ''s2'' 1 2, Draw 100 3 4, EndDrawing 0,
                        Recv_draw_line (strokeS1\<lparr>stroke_id := ''s3''\<rparr>)] boardA)) ! 0 = strokeS1
   \<and> length (strokes (fst (run [StartDrawing ''s2'' 1 2, Draw 100 3 4, EndDrawing 0,
                        Recv_draw_line (strokeS1\<lparr>stroke_id := ''s3''\<rparr>)] boardA))) = 3"
  using log_append_only[of "[StartDrawing ''s2'' 1 2, Draw 100 3 4, EndDrawing 0,
                             Recv_draw_line (strokeS1\<lparr>stroke_id := ''s3''\<rparr>)]" boardA]
  by (simp add: handler_defs boardA_def mount_def initial_def)

section \<open>Drawing state machine\<close>

text \<open>
  With a stroke in progress and the channel attached (as it is in every state after the
  mount effect, by \<open>run_channelRef\<close>), \<^verbatim>\<open>endDrawing\<close> appends the stroke to the log,
  empties the slot, and sends the stroke with all its points once for every call of the
  updater. No other event sends a draw-line message.
\<close>

lemma concat_replicate_single: "concat (replicate n [x]) = replicate n x"
  by (induction n) simp_all

lemma endDrawing_effect:
  assumes "currentStroke s = Some st" and "channelRef s"
  shows "endDrawing replays s =
           (s\<lparr>strokes := strokes s @ [st], currentStroke := None\<rparr>,
            replicate (Suc replays) (Draw_line st))"
  using assms by (simp add: endDrawing_def endDrawing_updater_def concat_replicate_single)

text \<open>
  C6. The claim has \<^verbatim>\<open>endDrawing\<close> broadcast the stroke as a single draw-line message.
  The send sits inside the state updater, so it happens as often as React calls the
  updater: when the updater is replayed once, one pointer-up after drawing S1 sends the
  draw-line message for S1 twice, while the log receives S1 once. When the updater runs
  once, a single message is sent.
\<close>

theorem endDrawing_replayed_sends_twice:
  "run [StartDrawing ''s1'' 0 0, Draw 100 10 10, EndDrawing 1] (mount (initial ''A''))
   = ((mount (initial ''A''))\<lparr>strokes := [strokeS1], lastCursorUpdate := 100\<rparr>,
      [Cursor_move \<lparr>cursor_id = ''A'', cursor_x = 10, cursor_y = 10, cursor_name = ''''\<rparr>,
       Draw_line strokeS1, Draw_line strokeS1])
   \<and> snd (run [StartDrawing ''s1'' 0 0, Draw 100 10 10, EndDrawing 0] (mount (initial ''A'')))
       = [Cursor_move \<lparr>cursor_id = ''A'', cursor_x = 10, cursor_y = 10, cursor_name = ''''\<rparr>,
          Draw_line strokeS1]"
  by (simp add: handler_defs strokeS1_def mount_def initial_def)

section \<open>Cursor broadcaster\<close>

text \<open>
  C7, as stated, fails: a pointer move exactly 50 ms after the last cursor broadcast sends
  nothing.
\<close>

theorem cursor_throttle_counterexample:
  "snd (run [MoveCursor 1000 1 1, MoveCursor 1050 2 2] (mount (initial ''A'')))
   = [Cursor_move \<lparr>cursor_id = ''A'', cursor_x = 1, cursor_y = 1, cursor_name = ''''\<rparr>]
   \<and> lastCursorUpdate (fst (run [MoveCursor 1000 1 1] (mount (initial ''A'')))) = 1000
   \<and> 1050 - lastCursorUpdate (fst (run [MoveCursor 1000 1 1] (mount (initial ''A'')))) \<ge> 50
   \<and> snd (moveCursor 1050 2 2 (fst (run [MoveCursor 1000 1 1] (mount (initial ''A''))))) = []"
  by (simp add: moveCursor_def cursorBroadcast_def mount_def initial_def)

text \<open>
  C7, amended. With the channel attached, a pointer move (through \<^verbatim>\<open>moveCursor\<close> or
  \<^verbatim>\<open>draw\<close>) sends one cursor-move message if and only if more than 50 ms have passed
  since the last cursor broadcast; otherwise the update is dropped, leaving no trace in
  the state. Consequently pointer moves whose clock readings lie within 200 ms of each
  other, such as moves every 10 ms over 200 ms, send no more than 5 cursor-move messages.
\<close>

theorem cursor_throttle:
  assumes "channelRef s"
  shows "moveCursor now x y s =
           (if now - lastCursorUpdate s > 50
            then (s\<lparr>lastCursorUpdate := now\<rparr>,
                  [Cursor_move \<lparr>cursor_id = uid (currentUser s), cursor_x = x, cursor_y = y,
                                 cursor_name = uname (currentUser s)\<rparr>])
            else (s, []))
       \<and> snd (draw now x y s) =
           (if now - lastCursorUpdate s > 50
            then [Cursor_move \<lparr>cursor_id = uid (currentUser s), cursor_x = x, cursor_y = y,
                                 cursor_name = uname (currentUser s)\<rparr>]
            else [])
       \<and> lastCursorUpdate (fst (draw now x y s)) =
           (if now - lastCursorUpdate s > 50 then now else lastCursorUpdate s)
       \<and> ((\<forall>e\<in>set es. \<exists>t. pointerMoveAt e = Some t \<and> t0 \<le> t \<and> t \<le> t0 + 200)
            \<longrightarrow> cursorMessages (snd (run es s)) \<le> 5)
       \<and> cursorMessages (snd (run (movesEvery10ms t0) s)) \<le> 5"
proof -
  have "(\<forall>e\<in>set es. \<exists>t. pointerMoveAt e = Some t \<and> t0 \<le> t \<and> t \<le> t0 + 200)
            \<longrightarrow> cursorMessages (snd (run es s)) \<le> 5"
    using run_window[of es t0 s] by auto
  moreover have "cursorMessages (snd (run (movesEvery10ms t0) s)) \<le> 5"
    using run_window[OF movesEvery10ms_window, of t0 s] by simp
  ultimately show ?thesis
    using assms by (simp add: moveCursor_def draw_def cursorBroadcast_def)
qed

theorem cursor_throttle_witness:
  "channelRef (mount (initial ''A''))
   \<and> snd (moveCursor 1051 2 2 ((mount (initial ''A''))\<lparr>lastCursorUpdate := 1000\<rparr>))
       = [Cursor_move \<lparr>cursor_id = ''A'', cursor_x = 2, cursor_y = 2, cursor_name = ''''\<rparr>]
   \<and> cursorMessages (snd (run (movesEvery10ms 1000) (mount (initial ''A'')))) \<le> 5"
proof -
  have c: "channelRef ((mount (initial ''A''))\<lparr>lastCursorUpdate := 1000\<rparr>)"
    by (simp add: mount_def)
  have d: "channelRef (mount (initial ''A''))"
    by (simp add: mount_def)
  from cursor_throttle[OF c, of 1051 2 2] cursor_throttle[OF d, of _ _ _ "[]" 1000] d
  show ?thesis
    by (simp add: mount_def initial_def)
qed

section \<open>Eraser\<close>

text \<open>
  C8. Choosing the toolbar's eraser and drawing a stroke (pointer down, any pointer moves,
  pointer up, however often the updater is called) appends one ordinary stroke to the log: its colour is the background colour
  \<^verbatim>\<open>#FFFFFF\<close>, its width is 20, every stroke the log held is still there in its place, and
  the log is longer by exactly one.
\<close>

theorem eraser_additive:
  assumes "t \<in> set tools" and "tool_label t = ''Eraser''"
    and "\<forall>e\<in>set moves. pointerMoveAt e \<noteq> None"
  shows "\<exists>st. strokes (fst (run (StartDrawing newId x y # moves @ [EndDrawing replays]) (fst (onClick t s))))
                = strokes s @ [st]
            \<and> color st = canvasBackground \<and> color st = ''#FFFFFF'' \<and> width st = 20
            \<and> length (strokes s @ [st]) = length (strokes s) + 1"
proof -
  have tc: "tool_color t = ''#FFFFFF''" "tool_width t = 20"
    using assms(1,2) by (auto simp: tools_def COLORS_ERASER_def WIDTHS_ERASER_def)
  define s1 where "s1 = fst (onClick t s)"
  define s2 where "s2 = fst (startDrawing newId x y s1)"
  have s1: "strokes s1 = strokes s" "ucolor (currentUser s1) = ''#FFFFFF''"
      "uwidth (currentUser s1) = 20"
    using tc by (simp_all add: s1_def onClick_def setTool_def)
  obtain st0 where st0: "currentStroke s2 = Some st0" "color st0 = ''#FFFFFF''"
      "width st0 = 20" "strokes s2 = strokes s"
    using s1 by (simp add: s2_def startDrawing_def)
  obtain st where st: "currentStroke (fst (run moves s2)) = Some st" "color st = color st0"
      "width st = width st0" "strokes (fst (run moves s2)) = strokes s2"
    using moves_keep_stroke[OF assms(3) st0(1)] by blast
  have "strokes (fst (endDrawing replays (fst (run moves s2)))) = strokes s @ [st]"
    using st st0 by (simp add: endDrawing_def endDrawing_updater_def)
  moreover have "fst (run (StartDrawing newId x y # moves @ [EndDrawing replays]) s1)
                   = fst (endDrawing replays (fst (run moves s2)))"
    by (simp add: run_append s2_def split: prod.splits)
  ultimately show ?thesis
    using st st0 by (auto simp: s1_def canvasBackground_def)
qed

theorem eraser_additive_witness:
  "strokes (fst (run (StartDrawing ''e1'' 5 5 # [Draw 100 6 6] @ [EndDrawing 1])
                   (fst (onClick (tools ! 4) boardA))))
   = [strokeS1,
      \<lparr>stroke_id = ''e1'', userId = ''A'', color = ''#FFFFFF'', width = 20,
       points = [\<lparr>point_x = 5, point_y = 5\<rparr>, \<lparr>point_x = 6, point_y = 6\<rparr>]\<rparr>]"
proof -
  have a: "tools ! 4 \<in> set tools"
    by (simp add: tools_def)
  have b: "tool_label (tools ! 4) = ''Eraser''"
    by (simp add: tools_def)
  have c: "\<forall>e\<in>set [Draw 100 6 6]. pointerMoveAt e \<noteq> None"
    by simp
  from eraser_additive[OF a b c, of "''e1''" 5 5 1 boardA] show ?thesis
    by (simp add: handler_defs onClick_def tools_def COLORS_ERASER_def WIDTHS_ERASER_def
        boardA_def mount_def initial_def)
qed

section \<open>The in-progress slot\<close>

text \<open>
  C9. After \<^verbatim>\<open>startDrawing(x, y)\<close> the in-progress slot holds one new stroke with the
  fresh identifier, the single point \<open>(x, y)\<close>, the client's identifier and the selected
  colour and width. The log is unchanged and nothing is sent, and the outcome is the same
  whether or not a stroke was in progress before: a previous stroke is dropped without
  reaching the log or the channel.
\<close>

theorem startDrawing_slot:
  "currentStroke (fst (startDrawing newId x y s)) =
      Some \<lparr>stroke_id = newId, userId = uid (currentUser s), color = ucolor (currentUser s),
            width = uwidth (currentUser s), points = [\<lparr>point_x = x, point_y = y\<rparr>]\<rparr>
   \<and> strokes (fst (startDrawing newId x y s)) = strokes s
   \<and> snd (startDrawing newId x y s) = []
   \<and> startDrawing newId x y (s\<lparr>currentStroke := Some prev\<rparr>)
       = startDrawing newId x y (s\<lparr>currentStroke := None\<rparr>)"
  by (simp add: startDrawing_def)

theorem startDrawing_slot_witness:
  "run [StartDrawing ''s8'' 1 1, StartDrawing ''s9'' 7 8, EndDrawing 0] boardA
   = (boardA\<lparr>strokes := [strokeS1, \<lparr>stroke_id = ''s9'', userId = ''A'', color = ''#000000'',
                                     width = 4, points = [\<lparr>point_x = 7, point_y = 8\<rparr>]\<rparr>]\<rparr>,
      [Draw_line \<lparr>stroke_id = ''s9'', userId = ''A'', color = ''#000000'', width = 4,
                  points = [\<lparr>point_x = 7, point_y = 8\<rparr>]\<rparr>])"
  using startDrawing_slot[of "''s9''" 7 8 "fst (startDrawing ''s8'' 1 1 boardA)"]
  by (simp add: handler_defs boardA_def mount_def initial_def COLORS_BLACK_def WIDTHS_PEN_def)

text \<open>
  C10. With no stroke in progress, \<^verbatim>\<open>endDrawing\<close> (however often its updater is
  called) changes nothing and sends nothing (the
  log is unchanged, no draw-line message, the slot stays empty), and \<^verbatim>\<open>draw(x, y)\<close>
  leaves the slot empty and the log unchanged and sends no draw-line message.
\<close>

theorem idle_endDrawing_draw_noop:
  assumes "currentStroke s = None"
  shows "endDrawing replays s = (s, [])
     \<and> currentStroke (fst (draw now x y s)) = None
     \<and> strokes (fst (draw now x y s)) = strokes s
     \<and> filter (\<lambda>m. \<not> is_cursor_move m) (snd (draw now x y s)) = []"
  using assms by (simp add: endDrawing_def endDrawing_updater_def draw_def cursorBroadcast_def)

theorem idle_endDrawing_draw_noop_witness:
  "currentStroke boardA = None
   \<and> endDrawing 0 boardA = (boardA, [])
   \<and> endDrawing 1 boardA = (boardA, [])
   \<and> currentStroke (fst (draw 100 3 4 boardA)) = None
   \<and> strokes (fst (draw 100 3 4 boardA)) = [strokeS1]"
  using idle_endDrawing_draw_noop[of boardA 0 100 3 4] idle_endDrawing_draw_noop[of boardA 1 100 3 4]
  by (simp add: boardA_def mount_def initial_def)

end
